theory Spec2Isabelle
  imports Complex_Main "HOL-Library.Log_Nat"
begin

section \<open>The BMI engine of app.py\<close>

text \<open>
  The pure functions of \<^verbatim>\<open>app.py\<close> (lines 13 to 138 and 218 to 222) as HOL
  functions. An optional argument (\<^verbatim>\<open>age=None\<close>, \<^verbatim>\<open>gender=None\<close>) is an
  \<open>option\<close>; a Python string is a \<open>string\<close>.

  The numbers of the source are Python floats, that is IEEE 754 binary64 values.
  \<open>calculate_bmi\<close>, \<open>calculate_ideal_weight_range\<close> and the conversions
  \<open>convert_weight_to_kg_float\<close> and \<open>convert_height_to_meters_float\<close> are modelled on
  these values, with the rounding of every operation and with the exceptions that Python
  raises. \<open>classify_bmi\<close> only compares its argument with constants, which is exact on
  every float. \<open>convert_height_to_meters\<close> and \<open>convert_weight_to_kg\<close> are the two
  conversions read as exact arithmetic with the fixed constants, the real-valued functions
  that the float versions compute up to rounding.
\<close>

subsection \<open>Python floats\<close>

text \<open>
  A finite float is given by its value, a rational number. The result of an operation is
  a finite float or an infinity; an operation that fails raises \<^verbatim>\<open>ZeroDivisionError\<close>
  or \<^verbatim>\<open>OverflowError\<close>. The arguments of the functions below are finite floats;
  not-a-number and the sign of zero are not modelled.
\<close>

datatype pyfloat = Finite rat | PosInf | NegInf

datatype error = ZeroDivisionError | OverflowError

text \<open>\<open>pow2 k\<close> is the power of two with the integer exponent \<open>k\<close>, also a negative one.\<close>

definition pow2 :: "int \<Rightarrow> rat" where
  "pow2 k = 2 powi k"

text \<open>
  \<open>flog2 x\<close> is the binary exponent of a positive \<open>x\<close>, the integer \<open>e\<close> with
  \<open>pow2 e \<le> x < pow2 (e + 1)\<close>, computed from the bit lengths of numerator and
  denominator.
\<close>

definition flog2 :: "rat \<Rightarrow> int" where
  "flog2 x =
     (let (p, d) = quotient_of x;
          k = bitlen p - bitlen d
      in if pow2 k \<le> x then k else k - 1)"

text \<open>Rounding to the nearest integer, a tie to the even one.\<close>

definition round_half_even :: "rat \<Rightarrow> int" where
  "round_half_even x =
     (let n = \<lfloor>x\<rfloor>; d = x - of_int n
      in if d < 1 / 2 then n
         else if 1 / 2 < d then n + 1
         else if even n then n else n + 1)"

text \<open>
  Rounding a number to binary64, to nearest with ties to even: 53 significant bits at the
  exponent of the number, which is at least -1022 (below it the result is subnormal, a
  multiple of \<open>pow2 (- 1074)\<close>, or zero), and an infinity when the rounded value reaches
  \<open>pow2 1024\<close>.
\<close>

definition round64 :: "rat \<Rightarrow> pyfloat" where
  "round64 x =
     (if x = 0 then Finite 0
      else
        let e = max (flog2 \<bar>x\<bar>) (- 1022);
            ulp = pow2 (e - 52);
            r = of_int (round_half_even (x / ulp)) * ulp
        in if pow2 1024 \<le> r then PosInf
           else if r \<le> - pow2 1024 then NegInf
           else Finite r)"

text \<open>
  A decimal literal of the source denotes the float nearest to it. The literals of the
  source are all within range, where \<open>literal\<close> is that float (a literal out of range,
  which the source does not have, is given the value 0 here).
\<close>

definition literal :: "rat \<Rightarrow> rat" where
  "literal q = (case round64 q of Finite r \<Rightarrow> r | PosInf \<Rightarrow> 0 | NegInf \<Rightarrow> 0)"

text \<open>
  The operations of Python on finite floats. \<^verbatim>\<open>a * b\<close> and \<^verbatim>\<open>a / b\<close> round the
  exact result and give an infinity when it is out of range; \<^verbatim>\<open>a / b\<close> raises
  \<^verbatim>\<open>ZeroDivisionError\<close> when \<^verbatim>\<open>b\<close> is zero. \<^verbatim>\<open>a ** 2\<close> is the rounded square,
  as the C library's \<^verbatim>\<open>pow\<close> returns it; when the square is out of range Python raises
  \<^verbatim>\<open>OverflowError\<close>, and when it is too small Python returns the subnormal float or
  zero. An integer operand of a float operation is converted to a float first, which is
  exact below \<open>2 ^ 53\<close> and raises \<^verbatim>\<open>OverflowError\<close> out of range.
\<close>

definition float_mul :: "rat \<Rightarrow> rat \<Rightarrow> pyfloat" where
  "float_mul a b = round64 (a * b)"


definition float_pow2 :: "rat \<Rightarrow> error + rat" where
  "float_pow2 a =
     (case round64 (a * a) of
        Finite r \<Rightarrow> Inr r
      | PosInf \<Rightarrow> Inl OverflowError
      | NegInf \<Rightarrow> Inl OverflowError)"

definition int_to_float :: "int \<Rightarrow> error + rat" where
  "int_to_float k =
     (case round64 (of_int k) of
        Finite r \<Rightarrow> Inr r
      | PosInf \<Rightarrow> Inl OverflowError
      | NegInf \<Rightarrow> Inl OverflowError)"

subsection \<open>BMI value and category\<close>


text \<open>
  \<^verbatim>\<open>classify_bmi(bmi)\<close> returns the category with its indicator symbol. The four
  symbols are the coloured circles U+1F535, U+1F7E2, U+1F7E1 and U+1F534, written here
  as their UTF-8 bytes.
\<close>

definition blue_circle :: string where
  "blue_circle = [CHR 0xF0, CHR 0x9F, CHR 0x94, CHR 0xB5]"

definition green_circle :: string where
  "green_circle = [CHR 0xF0, CHR 0x9F, CHR 0x9F, CHR 0xA2]"

definition yellow_circle :: string where
  "yellow_circle = [CHR 0xF0, CHR 0x9F, CHR 0x9F, CHR 0xA1]"

definition red_circle :: string where
  "red_circle = [CHR 0xF0, CHR 0x9F, CHR 0x94, CHR 0xB4]"

definition classify_bmi :: "real \<Rightarrow> string \<times> string" where
  "classify_bmi bmi =
     (if bmi < 18.5 then (''Underweight'', blue_circle)
      else if 18.5 \<le> bmi \<and> bmi < 25 then (''Normal weight'', green_circle)
      else if 25 \<le> bmi \<and> bmi < 30 then (''Overweight'', yellow_circle)
      else (''Obese'', red_circle))"

subsection \<open>Unit conversion and the ideal weight range\<close>

text \<open>
  \<^verbatim>\<open>convert_height_to_meters(feet, inches, unit_system)\<close>: under
  \<^verbatim>\<open>"Imperial"\<close> the total inches times 0.0254; under any other unit system the
  first argument holds centimetres and is divided by 100.
\<close>

definition convert_height_to_meters :: "real \<Rightarrow> real \<Rightarrow> string \<Rightarrow> real" where
  "convert_height_to_meters feet inches unit_system =
     (if unit_system = ''Imperial''
      then (let total_inches = feet * 12 + inches in total_inches * 0.0254)
      else feet / 100)"

definition convert_weight_to_kg :: "real \<Rightarrow> string \<Rightarrow> real" where
  "convert_weight_to_kg weight unit_system =
     (if unit_system = ''Imperial'' then weight * 0.453592 else weight)"

text \<open>
  The two conversions on floats. The form passes the weight as a float and the feet and
  inches as integers (\<^verbatim>\<open>st.number_input\<close> with integer bounds), so
  \<^verbatim>\<open>feet * 12 + inches\<close> is exact integer arithmetic and the product with
  \<^verbatim>\<open>0.0254\<close> converts the total to a float first; \<^verbatim>\<open>feet / 100\<close> is the
  rounded quotient of two integers.
\<close>

definition convert_weight_to_kg_float :: "rat \<Rightarrow> string \<Rightarrow> pyfloat" where
  "convert_weight_to_kg_float weight unit_system =
     (if unit_system = ''Imperial'' then float_mul weight (literal 0.453592)
      else Finite weight)"

definition convert_height_to_meters_float :: "int \<Rightarrow> int \<Rightarrow> string \<Rightarrow> error + pyfloat" where
  "convert_height_to_meters_float feet inches unit_system =
     (if unit_system = ''Imperial'' then
        (let total_inches = feet * 12 + inches
         in case int_to_float total_inches of
              Inl e \<Rightarrow> Inl e
            | Inr t \<Rightarrow> Inr (float_mul t (literal 0.0254)))
      else
        (case round64 (of_int feet / 100) of
           Finite r \<Rightarrow> Inr (Finite r)
         | PosInf \<Rightarrow> Inl OverflowError
         | NegInf \<Rightarrow> Inl OverflowError))"

text \<open>
  \<^verbatim>\<open>calculate_ideal_weight_range(height_m)\<close>: the two products in the order of the
  source, each with its own evaluation of \<^verbatim>\<open>height_m**2\<close>.
\<close>

definition calculate_ideal_weight_range :: "rat \<Rightarrow> error + pyfloat \<times> pyfloat" where
  "calculate_ideal_weight_range height_m =
     (case float_pow2 height_m of
        Inl e \<Rightarrow> Inl e
      | Inr h2 \<Rightarrow>
          let min_weight = float_mul (literal 18.5) h2
          in case float_pow2 height_m of
               Inl e \<Rightarrow> Inl e
             | Inr h2' \<Rightarrow>
                 let max_weight = float_mul (literal 24.9) h2'
                 in Inr (min_weight, max_weight))"

subsection \<open>Optional arguments and Python truthiness\<close>

text \<open>
  \<^verbatim>\<open>age\<close> is an integer or \<^verbatim>\<open>None\<close>. In a condition (\<^verbatim>\<open>if age:\<close>,
  \<^verbatim>\<open>age and ...\<close>) Python takes \<^verbatim>\<open>None\<close> and \<^verbatim>\<open>0\<close> as false and every
  other integer as true. \<open>age_and age test\<close> is the condition \<^verbatim>\<open>age and test(age)\<close>;
  \<open>or_default age 30\<close> is \<^verbatim>\<open>age or 30\<close>: \<^verbatim>\<open>age\<close> when it is true and 30
  otherwise.
\<close>

fun age_and :: "int option \<Rightarrow> (int \<Rightarrow> bool) \<Rightarrow> bool" where
  "age_and None test = False"
| "age_and (Some a) test = (a \<noteq> 0 \<and> test a)"

fun or_default :: "int option \<Rightarrow> int \<Rightarrow> int" where
  "or_default None d = d"
| "or_default (Some a) d = (if a \<noteq> 0 then a else d)"

subsection \<open>Health recommendations\<close>

text \<open>
  The dictionary literal \<^verbatim>\<open>base_recommendations\<close> of
  \<^verbatim>\<open>get_health_recommendations\<close>, in the order it is written.
\<close>

definition base_recommendations :: "(string \<times> string list) list" where
  "base_recommendations =
     [(''Underweight'',
        [''Consult with a healthcare provider to determine underlying causes'',
         ''Focus on nutrient-dense foods to gain weight healthily'',
         ''Consider strength training to build muscle mass'',
         ''Ensure adequate caloric intake for your activity level'']),
      (''Normal weight'',
        [''Maintain your current healthy lifestyle'',
         ''Continue regular physical activity (150 minutes moderate exercise per week)'',
         ''Eat a balanced diet rich in fruits, vegetables, and whole grains'',
         ''Monitor your weight regularly to maintain this healthy range'']),
      (''Overweight'',
        [''Aim for gradual weight loss (1-2 pounds per week)'',
         ''Increase physical activity to at least 300 minutes per week'',
         ''Focus on portion control and reducing caloric intake'',
         ''Consider consulting a nutritionist for personalized advice'']),
      (''Obese'',
        [''Consult with a healthcare provider for a comprehensive weight management plan'',
         ''Set realistic weight loss goals (5-10% of body weight initially)'',
         ''Combine dietary changes with regular physical activity'',
         ''Consider professional support from dietitians or weight loss programs''])]"

text \<open>The messages that the age and gender blocks append.\<close>

definition older_underweight_msg :: string where
  "older_underweight_msg =
     ''Older adults may need slightly higher BMI for better health outcomes - discuss with your doctor''"

definition older_normal_msg :: string where
  "older_normal_msg =
     ''Focus on maintaining muscle mass through resistance training and adequate protein intake''"

definition older_overweight_msg :: string where
  "older_overweight_msg =
     ''Weight loss for older adults should be supervised by healthcare professionals to preserve muscle mass''"

definition under18_msg :: string where
  "under18_msg =
     ''BMI interpretation for individuals under 18 may differ - consult with a pediatrician for appropriate guidance''"

definition female_normal_msg :: string where
  "female_normal_msg =
     ''Women may need additional iron and calcium in their diet - especially during reproductive years''"

definition female_underweight_msg :: string where
  "female_underweight_msg =
     ''Underweight in women can affect menstrual health and bone density - consider consulting a healthcare provider''"

definition male_overweight_msg :: string where
  "male_overweight_msg =
     ''Men tend to carry more visceral fat, which increases health risks - focus on waist circumference reduction''"

text \<open>
  The block under \<^verbatim>\<open># Age-specific adjustments\<close> (lines 64 to 81), as a function of
  the list it appends to.
\<close>

definition age_adjustments :: "string \<Rightarrow> int option \<Rightarrow> string list \<Rightarrow> string list" where
  "age_adjustments category age recommendations =
     (case age of
        None \<Rightarrow> recommendations
      | Some a \<Rightarrow>
          if a \<noteq> 0 then
            (if a \<ge> 65 then
               (if category = ''Underweight'' then recommendations @ [older_underweight_msg]
                else if category = ''Normal weight'' then recommendations @ [older_normal_msg]
                else if category \<in> set [''Overweight'', ''Obese'']
                  then recommendations @ [older_overweight_msg]
                else recommendations)
             else if a < 18 then recommendations @ [under18_msg]
             else recommendations)
          else recommendations)"

text \<open>
  The block under \<^verbatim>\<open># Gender-specific adjustments\<close> (lines 84 to 97).
\<close>

definition gender_adjustments :: "string \<Rightarrow> string option \<Rightarrow> string list \<Rightarrow> string list" where
  "gender_adjustments category gender recommendations =
     (if gender = Some ''Female'' then
        (if category = ''Normal weight'' then recommendations @ [female_normal_msg]
         else if category = ''Underweight'' then recommendations @ [female_underweight_msg]
         else recommendations)
      else if gender = Some ''Male'' then
        (if category = ''Overweight'' \<or> category = ''Obese''
           then recommendations @ [male_overweight_msg]
         else recommendations)
      else recommendations)"

text \<open>
  \<^verbatim>\<open>get_health_recommendations(category, age, gender)\<close> as a function of its
  arguments: the entry of the table for the category (the empty list when the table has
  none), then the two blocks in the order of the source.
\<close>

definition get_health_recommendations ::
  "string \<Rightarrow> int option \<Rightarrow> string option \<Rightarrow> string list" where
  "get_health_recommendations category age gender =
     (let recommendations =
            (case map_of base_recommendations category of None \<Rightarrow> [] | Some xs \<Rightarrow> xs)
      in gender_adjustments category gender (age_adjustments category age recommendations))"

subsection \<open>Interpretation notes\<close>

definition older_note :: string where
  "older_note =
     ''Note: For adults 65+, slightly higher BMI (23-30) may be associated with better health outcomes.''"

definition minor_note :: string where
  "minor_note =
     ''Important: This calculator is designed for adults. BMI interpretation for children and teens requires age and sex-specific percentiles.''"

definition female_note :: string where
  "female_note =
     ''Note: BMI doesn't account for pregnancy, menstrual cycle variations, or body composition differences.''"

definition get_bmi_interpretation_note ::
  "real \<Rightarrow> int option \<Rightarrow> string option \<Rightarrow> string list" where
  "get_bmi_interpretation_note bmi age gender =
     (let notes = [];
          notes = (if age_and age (\<lambda>a. a \<ge> 65) then notes @ [older_note] else notes);
          notes = (if age_and age (\<lambda>a. a < 18) then notes @ [minor_note] else notes);
          notes = (if gender = Some ''Female'' \<and> 18 \<le> or_default age 30 \<and> or_default age 30 \<le> 50
                   then notes @ [female_note] else notes)
      in notes)"

subsection \<open>The list objects of \<^verbatim>\<open>get_health_recommendations\<close>\<close>

text \<open>
  Python lists are objects: the dictionary holds references to the four base lists,
  \<^verbatim>\<open>.get(category, [])\<close> returns one of these references or a reference to the
  fresh empty list, \<^verbatim>\<open>.copy()\<close> makes a new list object with the same elements, and
  \<^verbatim>\<open>append\<close> changes the object it is called on. The store is the list of all list
  objects, an address is an index into it, and a new object goes to the end.
\<close>

type_synonym addr = nat

type_synonym heap = "string list list"

definition new_list :: "heap \<Rightarrow> string list \<Rightarrow> heap \<times> addr" where
  "new_list h xs = (h @ [xs], length h)"

text \<open>
  Evaluating a dictionary literal whose values are list literals: one new list object
  for each entry, in order, and a table from the keys to the addresses.
\<close>

fun new_dict :: "heap \<Rightarrow> (string \<times> string list) list \<Rightarrow> heap \<times> (string \<times> addr) list" where
  "new_dict h [] = (h, [])"
| "new_dict h ((k, xs) # entries) =
     (let (h1, a) = new_list h xs;
          (h2, table) = new_dict h1 entries
      in (h2, (k, a) # table))"

text \<open>The table with every address replaced by the list stored there.\<close>

definition deref :: "heap \<Rightarrow> (string \<times> addr) list \<Rightarrow> (string \<times> string list) list" where
  "deref h table = map (\<lambda>(k, a). (k, h ! a)) table"

text \<open>
  \<^verbatim>\<open>get_health_recommendations\<close> on the store: it returns the store it leaves, the
  table of the base lists and the address of the list it returns. The default argument
  \<^verbatim>\<open>[]\<close> of \<^verbatim>\<open>.get\<close> is evaluated before the lookup, as Python evaluates arguments.
\<close>

definition get_health_recommendations_heap ::
  "heap \<Rightarrow> string \<Rightarrow> int option \<Rightarrow> string option \<Rightarrow> heap \<times> (string \<times> addr) list \<times> addr" where
  "get_health_recommendations_heap h category age gender =
     (let (h1, table) = new_dict h base_recommendations;
          (h2, empty_list) = new_list h1 [];
          found = (case map_of table category of None \<Rightarrow> empty_list | Some a \<Rightarrow> a);
          (h3, recommendations) = new_list h2 (h2 ! found);
          h4 = h3[recommendations := age_adjustments category age (h3 ! recommendations)];
          h5 = h4[recommendations := gender_adjustments category gender (h4 ! recommendations)]
      in (h5, table, recommendations))"

section \<open>The specification's wording\<close>

text \<open>
  The recommendation list as the specification describes it: the base entries of the
  category, then the entry of the age branch (one message chosen by the category when the
  age is at least 65, one generic message when it is below 18), then the entry of the
  gender branch.
\<close>

definition base_entries :: "string \<Rightarrow> string list" where
  "base_entries category =
     (case map_of base_recommendations category of None \<Rightarrow> [] | Some xs \<Rightarrow> xs)"

definition age_entries :: "string \<Rightarrow> int option \<Rightarrow> string list" where
  "age_entries category age =
     (case age of
        None \<Rightarrow> []
      | Some a \<Rightarrow>
          if a \<ge> 65 then
            (if category = ''Underweight'' then [older_underweight_msg]
             else if category = ''Normal weight'' then [older_normal_msg]
             else if category = ''Overweight'' \<or> category = ''Obese'' then [older_overweight_msg]
             else [])
          else if a < 18 then [under18_msg]
          else [])"

definition gender_entries :: "string \<Rightarrow> string option \<Rightarrow> string list" where
  "gender_entries category gender =
     (if gender = Some ''Female'' then
        (if category = ''Normal weight'' then [female_normal_msg]
         else if category = ''Underweight'' then [female_underweight_msg]
         else [])
      else if gender = Some ''Male'' then
        (if category = ''Overweight'' \<or> category = ''Obese'' then [male_overweight_msg] else [])
      else [])"

definition deriveRecommendations :: "string \<Rightarrow> int option \<Rightarrow> string option \<Rightarrow> string list" where
  "deriveRecommendations category age gender =
     base_entries category @ age_entries category age @ gender_entries category gender"

text \<open>
  The interpretation notes as the specification describes them: three notes, gated on an
  age of at least 65, on an age below 18, and on the gender Female with an age from 18 to
  50, where only this last check takes an absent age as 30.
\<close>

definition deriveInterpretationNotes :: "real \<Rightarrow> int option \<Rightarrow> string option \<Rightarrow> string list" where
  "deriveInterpretationNotes bmi age gender =
     (case age of None \<Rightarrow> [] | Some a \<Rightarrow> if a \<ge> 65 then [older_note] else []) @
     (case age of None \<Rightarrow> [] | Some a \<Rightarrow> if a < 18 then [minor_note] else []) @
     (if gender = Some ''Female'' \<and>
         18 \<le> (case age of None \<Rightarrow> 30 | Some a \<Rightarrow> a) \<and>
         (case age of None \<Rightarrow> 30 | Some a \<Rightarrow> a) \<le> 50
      then [female_note] else [])"

text \<open>
  \<open>rel_err_le y x d\<close>: the value \<open>y\<close> is \<open>x\<close> to within the relative error \<open>d\<close>.
\<close>

definition rel_err_le :: "rat \<Rightarrow> rat \<Rightarrow> rat \<Rightarrow> bool" where
  "rel_err_le y x d = (\<bar>y - x\<bar> \<le> \<bar>x\<bar> * d)"

text \<open>An age of 0 read as an absent age.\<close>

definition zero_as_absent :: "int option \<Rightarrow> int option" where
  "zero_as_absent age = (if age = Some 0 then None else age)"

section \<open>Properties\<close>

subsection \<open>Rounding to binary64\<close>

text \<open>
  \<open>flog2\<close> is the binary exponent, \<open>round_half_even\<close> is within one half of its
  argument, and \<open>round64\<close> is determined by the exponent and the rounded significand
  of its argument. In the normal range its result is finite and within the relative
  error \<open>pow2 (- 53)\<close>, so two numbers further apart than that round to different
  floats; an integer below \<open>2 ^ 53\<close> is a float.
\<close>

lemma pow2_pos: "0 < pow2 k"
  by (simp add: pow2_def)

lemma pow2_add: "pow2 (j + k) = pow2 j * pow2 k"
  by (simp add: pow2_def power_int_add)

lemma pow2_mono: "j \<le> k \<Longrightarrow> pow2 j \<le> pow2 k"
  unfolding pow2_def by (intro power_int_increasing) simp_all

lemma pow2_strict_mono: "j < k \<Longrightarrow> pow2 j < pow2 k"
  unfolding pow2_def by (intro power_int_strict_increasing) simp_all

lemma pow2_Suc: "pow2 (k + 1) = 2 * pow2 k"
  by (simp add: pow2_def power_int_add)

lemma pow2_half: "pow2 (k - 1) = pow2 k / 2"
  using pow2_Suc [of "k - 1"] by simp

lemma flog2_bounds:
  assumes "0 < x"
  shows "pow2 (flog2 x) \<le> x \<and> x < pow2 (flog2 x + 1)"
proof -
  obtain p d where q: "quotient_of x = (p, d)" by (cases "quotient_of x")
  then have x: "x = of_int p / of_int d" and d: "0 < d"
    by (simp_all add: quotient_of_div quotient_of_denom_pos)
  with assms have p: "0 < p"
    by (simp add: zero_less_divide_iff)
  define a where "a = bitlen p"
  define b where "b = bitlen d"
  have a1: "1 \<le> a" and b1: "1 \<le> b"
    using p d bitlen_eq_zero_iff [of p] bitlen_eq_zero_iff [of d] bitlen_nonneg [of p]
      bitlen_nonneg [of d] by (auto simp: a_def b_def)
  have pb: "(2::rat) powi (a - 1) \<le> of_int p" "of_int p < (2::rat) powi a"
  proof -
    from bitlen_bounds [OF p] have "2 ^ nat (a - 1) \<le> p" "p < 2 ^ nat a"
      by (simp_all add: a_def)
    then have "rat_of_int (2 ^ nat (a - 1)) \<le> of_int p" "rat_of_int p < of_int (2 ^ nat a)"
      by (simp_all only: of_int_le_iff of_int_less_iff)
    with a1 show "(2::rat) powi (a - 1) \<le> of_int p" "of_int p < (2::rat) powi a"
      by (simp_all add: power_int_def)
  qed
  have db: "(2::rat) powi (b - 1) \<le> of_int d" "of_int d < (2::rat) powi b"
  proof -
    from bitlen_bounds [OF d] have "2 ^ nat (b - 1) \<le> d" "d < 2 ^ nat b"
      by (simp_all add: b_def)
    then have "rat_of_int (2 ^ nat (b - 1)) \<le> of_int d" "rat_of_int d < of_int (2 ^ nat b)"
      by (simp_all only: of_int_le_iff of_int_less_iff)
    with b1 show "(2::rat) powi (b - 1) \<le> of_int d" "of_int d < (2::rat) powi b"
      by (simp_all add: power_int_def)
  qed
  have dpos: "(0::rat) < of_int d" using d by simp
  have upper: "x < 2 powi (a - b + 1)"
  proof -
    have "x * of_int d = of_int p" using dpos by (simp add: x)
    also have "\<dots> < 2 powi a" by (rule pb)
    also have "\<dots> = 2 powi (a - b + 1) * 2 powi (b - 1)"
      by (simp flip: power_int_add)
    also have "\<dots> \<le> 2 powi (a - b + 1) * of_int d"
      using db(1) by (intro mult_left_mono) simp_all
    finally show ?thesis using dpos by simp
  qed
  have lower: "2 powi (a - b - 1) \<le> x"
  proof -
    have "(2::rat) powi (a - b - 1) * of_int d \<le> 2 powi (a - b - 1) * 2 powi b"
      using db(2) by (intro mult_left_mono) simp_all
    also have "\<dots> = 2 powi (a - 1)"
      by (simp flip: power_int_add)
    also have "\<dots> \<le> of_int p" by (rule pb)
    also have "\<dots> = x * of_int d" using dpos by (simp add: x)
    finally show ?thesis using dpos by simp
  qed
  have f: "flog2 x = (if 2 powi (a - b) \<le> x then a - b else a - b - 1)"
    by (simp add: flog2_def pow2_def q a_def b_def Let_def)
  show ?thesis
  proof (cases "2 powi (a - b) \<le> x")
    case True
    with f upper show ?thesis by (simp add: pow2_def)
  next
    case False
    with f lower show ?thesis by (simp add: pow2_def)
  qed
qed

lemma flog2_eqI:
  assumes "pow2 e \<le> x" "x < pow2 (e + 1)"
  shows "flog2 x = e"
proof -
  from assms(1) pow2_pos [of e] have pos: "0 < x" by linarith
  note b = flog2_bounds [OF pos]
  have "\<not> flog2 x < e"
  proof
    assume "flog2 x < e"
    then have "pow2 (flog2 x + 1) \<le> pow2 e"
      by (intro pow2_mono) simp
    with b assms(1) show False by simp
  qed
  moreover have "\<not> e < flog2 x"
  proof
    assume "e < flog2 x"
    then have "pow2 (e + 1) \<le> pow2 (flog2 x)"
      by (intro pow2_mono) simp
    with b assms(2) show False by simp
  qed
  ultimately show ?thesis by simp
qed

lemma round_half_even_error: "\<bar>of_int (round_half_even x) - x\<bar> \<le> 1 / 2"
proof -
  have "of_int \<lfloor>x\<rfloor> \<le> x" "x < of_int \<lfloor>x\<rfloor> + 1"
    by linarith+
  then show ?thesis
    by (auto simp: round_half_even_def Let_def)
qed

lemma round_half_even_eqI:
  assumes "\<bar>x - of_int n\<bar> < 1 / 2 \<or> (\<bar>x - of_int n\<bar> = 1 / 2 \<and> even n)"
  shows "round_half_even x = n"
proof -
  consider (near) "\<bar>x - of_int n\<bar> < 1 / 2"
    | (above) "x = of_int n + 1 / 2" "even n"
    | (below) "x = of_int n - 1 / 2" "even n"
    using assms by (auto simp: abs_if split: if_splits)
  then show ?thesis
  proof cases
    case near
    have "\<bar>of_int (round_half_even x) - x\<bar> \<le> 1 / 2"
      by (rule round_half_even_error)
    with near have "\<bar>rat_of_int (round_half_even x) - of_int n\<bar> < 1"
      by linarith
    then have "\<bar>rat_of_int (round_half_even x - n)\<bar> < 1"
      by simp
    then have "\<bar>round_half_even x - n\<bar> < 1"
      by (simp only: of_int_abs [symmetric] of_int_less_1_iff)
    then show ?thesis by simp
  next
    case above
    have "\<lfloor>x\<rfloor> = n" unfolding above(1) by linarith
    with above show ?thesis by (simp add: round_half_even_def Let_def)
  next
    case below
    have "\<lfloor>x\<rfloor> = n - 1" unfolding below(1) by linarith
    with below show ?thesis by (simp add: round_half_even_def Let_def)
  qed
qed

lemma round_half_even_of_int: "round_half_even (of_int n) = n"
  by (rule round_half_even_eqI) simp

lemma round64_at:
  assumes "x \<noteq> 0" "max (flog2 \<bar>x\<bar>) (- 1022) = e"
    and "round_half_even (x / pow2 (e - 52)) = n"
  shows "round64 x =
     (if pow2 1024 \<le> of_int n * pow2 (e - 52) then PosInf
      else if of_int n * pow2 (e - 52) \<le> - pow2 1024 then NegInf
      else Finite (of_int n * pow2 (e - 52)))"
  using assms by (simp add: round64_def Let_def)

lemma exponent_normal:
  assumes "pow2 e \<le> \<bar>x\<bar>" "\<bar>x\<bar> < pow2 (e + 1)" "- 1022 \<le> e"
  shows "max (flog2 \<bar>x\<bar>) (- 1022) = e"
  using flog2_eqI [OF assms(1,2)] assms(3) by simp


lemma nonzero_of_pow2_le: "pow2 e \<le> \<bar>x\<bar> \<Longrightarrow> x \<noteq> 0"
  using pow2_pos [of e] by auto

lemma round64_normal:
  assumes "pow2 e \<le> \<bar>x\<bar>" "\<bar>x\<bar> < pow2 (e + 1)" "- 1022 \<le> e"
    and "\<bar>x / pow2 (e - 52) - of_int n\<bar> < 1 / 2 \<or>
         (\<bar>x / pow2 (e - 52) - of_int n\<bar> = 1 / 2 \<and> even n)"
    and "\<bar>of_int n * pow2 (e - 52)\<bar> < pow2 1024"
  shows "round64 x = Finite (of_int n * pow2 (e - 52))"
proof -
  note nz = nonzero_of_pow2_le [OF assms(1)]
  from assms(5) have "\<not> pow2 1024 \<le> of_int n * pow2 (e - 52)"
    and "\<not> of_int n * pow2 (e - 52) \<le> - pow2 1024"
    by linarith+
  with round64_at [OF nz exponent_normal [OF assms(1-3)] round_half_even_eqI [OF assms(4)]]
  show ?thesis by simp
qed


lemma round64_overflow:
  assumes "pow2 e \<le> \<bar>x\<bar>" "\<bar>x\<bar> < pow2 (e + 1)" "- 1022 \<le> e"
    and "\<bar>x / pow2 (e - 52) - of_int n\<bar> < 1 / 2 \<or>
         (\<bar>x / pow2 (e - 52) - of_int n\<bar> = 1 / 2 \<and> even n)"
    and "pow2 1024 \<le> of_int n * pow2 (e - 52)"
  shows "round64 x = PosInf"
  using round64_at [OF nonzero_of_pow2_le [OF assms(1)] exponent_normal [OF assms(1-3)]
      round_half_even_eqI [OF assms(4)]] assms(5)
  by simp

lemma round64_error:
  assumes "pow2 (- 1022) \<le> \<bar>x\<bar>" "\<bar>x\<bar> \<le> pow2 1023"
  shows "\<exists>r. round64 x = Finite r \<and> \<bar>r - x\<bar> \<le> \<bar>x\<bar> * pow2 (- 53)"
proof -
  from assms(1) pow2_pos [of "- 1022"] have pos: "0 < \<bar>x\<bar>" by linarith
  then have nz: "x \<noteq> 0" by simp
  define e where "e = flog2 \<bar>x\<bar>"
  from flog2_bounds [OF pos] have eb: "pow2 e \<le> \<bar>x\<bar>" "\<bar>x\<bar> < pow2 (e + 1)"
    by (simp_all add: e_def)
  have e_lo: "- 1022 \<le> e"
  proof (rule ccontr)
    assume "\<not> - 1022 \<le> e"
    then have "pow2 (e + 1) \<le> pow2 (- 1022)"
      by (intro pow2_mono) simp
    with eb(2) assms(1) show False by linarith
  qed
  define ulp where "ulp = pow2 (e - 52)"
  have ulp_pos: "0 < ulp" by (simp add: ulp_def pow2_pos)
  define n where "n = round_half_even (x / ulp)"
  define r where "r = of_int n * ulp"
  have "\<bar>of_int n - x / ulp\<bar> \<le> 1 / 2"
    unfolding n_def by (rule round_half_even_error)
  then have "\<bar>of_int n - x / ulp\<bar> * ulp \<le> 1 / 2 * ulp"
    using ulp_pos by (intro mult_right_mono) simp_all
  moreover have "\<bar>of_int n - x / ulp\<bar> * ulp = \<bar>(of_int n - x / ulp) * ulp\<bar>"
    using ulp_pos by (simp add: abs_mult)
  moreover have "(of_int n - x / ulp) * ulp = r - x"
    using ulp_pos by (simp add: r_def left_diff_distrib)
  ultimately have err: "\<bar>r - x\<bar> \<le> ulp / 2" by simp
  have "ulp = pow2 e * pow2 (- 52)"
    using pow2_add [of e "- 52"] by (simp add: ulp_def)
  then have "ulp / 2 = pow2 e * (pow2 (- 52) / 2)"
    by simp
  also have "pow2 (- 52) / 2 = pow2 (- 53)"
    using pow2_half [of "- 52"] by simp
  finally have half: "ulp / 2 = pow2 e * pow2 (- 53)" .
  have "pow2 e * pow2 (- 53) \<le> \<bar>x\<bar> * pow2 (- 53)"
    using eb(1) pow2_pos [of "- 53"] by (intro mult_right_mono) simp_all
  with err half have bound: "\<bar>r - x\<bar> \<le> \<bar>x\<bar> * pow2 (- 53)" by simp
  have small: "pow2 (- 53) < 1"
    using pow2_strict_mono [of "- 53" 0] by (simp add: pow2_def)
  have "\<bar>r\<bar> \<le> \<bar>x\<bar> + \<bar>r - x\<bar>" by linarith
  also have "\<dots> \<le> \<bar>x\<bar> * (1 + pow2 (- 53))"
    using bound by (simp add: algebra_simps)
  also have "\<dots> \<le> pow2 1023 * (1 + pow2 (- 53))"
    using assms(2) pow2_pos [of "- 53"] by (intro mult_right_mono) simp_all
  also have "\<dots> < pow2 1023 * 2"
    using small pow2_pos [of 1023] by (intro mult_strict_left_mono) simp_all
  also have "\<dots> = pow2 1024"
    using pow2_Suc [of 1023] by simp
  finally have fin: "\<bar>r\<bar> < pow2 1024" .
  then have "\<not> pow2 1024 \<le> r" "\<not> r \<le> - pow2 1024" by linarith+
  with round64_at [OF nz exponent_normal [OF eb e_lo], of n] n_def r_def ulp_def
  have "round64 x = Finite r" by simp
  with bound show ?thesis by blast
qed

lemma rel_err_abs_le:
  assumes "rel_err_le y x d"
  shows "\<bar>y\<bar> \<le> \<bar>x\<bar> * (1 + d)"
proof -
  have "\<bar>y\<bar> \<le> \<bar>x\<bar> + \<bar>y - x\<bar>" by linarith
  with assms show ?thesis by (simp add: rel_err_le_def algebra_simps)
qed

lemma rel_err_abs_ge:
  assumes "rel_err_le y x d"
  shows "\<bar>x\<bar> * (1 - d) \<le> \<bar>y\<bar>"
proof -
  have "\<bar>x\<bar> - \<bar>y - x\<bar> \<le> \<bar>y\<bar>" by linarith
  with assms show ?thesis by (simp add: rel_err_le_def algebra_simps)
qed

lemma rel_err_trans:
  assumes zy: "rel_err_le z y d2" and yx: "rel_err_le y x d1" and d2: "0 \<le> d2"
  shows "rel_err_le z x (d1 + d2 + d1 * d2)"
proof -
  have "\<bar>z - x\<bar> \<le> \<bar>z - y\<bar> + \<bar>y - x\<bar>" by linarith
  also have "\<dots> \<le> \<bar>y\<bar> * d2 + \<bar>x\<bar> * d1"
    using zy yx by (simp add: rel_err_le_def)
  also have "\<bar>y\<bar> * d2 \<le> (\<bar>x\<bar> * (1 + d1)) * d2"
    using rel_err_abs_le [OF yx] d2 by (rule mult_right_mono)
  finally have "\<bar>z - x\<bar> \<le> (\<bar>x\<bar> * (1 + d1)) * d2 + \<bar>x\<bar> * d1" by simp
  then show ?thesis by (simp add: rel_err_le_def algebra_simps)
qed

lemma rel_err_mult_left:
  assumes "rel_err_le y x d"
  shows "rel_err_le (c * y) (c * x) d"
proof -
  have "\<bar>c * y - c * x\<bar> = \<bar>c\<bar> * \<bar>y - x\<bar>"
    by (simp add: abs_mult flip: right_diff_distrib)
  also have "\<dots> \<le> \<bar>c\<bar> * (\<bar>x\<bar> * d)"
    using assms by (intro mult_left_mono) (simp_all add: rel_err_le_def)
  finally show ?thesis by (simp add: rel_err_le_def abs_mult algebra_simps)
qed

lemma rel_err_mult_right:
  assumes "rel_err_le c c' d"
  shows "rel_err_le (c * x) (c' * x) d"
proof -
  have "\<bar>c * x - c' * x\<bar> = \<bar>c - c'\<bar> * \<bar>x\<bar>"
    by (simp add: abs_mult flip: left_diff_distrib)
  also have "\<dots> \<le> (\<bar>c'\<bar> * d) * \<bar>x\<bar>"
    using assms by (intro mult_right_mono) (simp_all add: rel_err_le_def)
  finally show ?thesis by (simp add: rel_err_le_def abs_mult algebra_simps)
qed

lemma rel_err_weaken:
  assumes "rel_err_le y x d" "d \<le> d'"
  shows "rel_err_le y x d'"
proof -
  have "\<bar>x\<bar> * d \<le> \<bar>x\<bar> * d'"
    using assms(2) by (intro mult_left_mono) simp_all
  with assms(1) show ?thesis by (simp add: rel_err_le_def)
qed

lemma round64_rel_err:
  assumes "pow2 (- 1022) \<le> \<bar>x\<bar>" "\<bar>x\<bar> \<le> pow2 1023"
  shows "\<exists>r. round64 x = Finite r \<and> rel_err_le r x (pow2 (- 53))"
  using round64_error [OF assms] by (simp add: rel_err_le_def)

lemma u_values: "pow2 (- 53) = 1 / 2 ^ 53" "pow2 (- 51) = 1 / 2 ^ 51"
  by (simp_all add: pow2_def power_int_minus field_simps)

lemma round64_separated:
  assumes lo: "pow2 (- 1022) \<le> x1" and gap: "x1 * (1 + pow2 (- 51)) \<le> x2"
    and hi: "x2 \<le> pow2 1023"
  shows "\<exists>r1 r2. round64 x1 = Finite r1 \<and> round64 x2 = Finite r2 \<and> r1 < r2"
proof -
  define u where "u = pow2 (- 53)"
  have u: "0 < u" "u < 1 / 4" "pow2 (- 51) = 4 * u"
    by (simp_all add: u_def u_values pow2_pos)
  from lo pow2_pos [of "- 1022"] have x1: "0 < x1" by linarith
  have "x1 * 1 \<le> x1 * (1 + pow2 (- 51))"
    using x1 pow2_pos [of "- 51"] by (intro mult_left_mono) simp_all
  with gap have x12: "x1 \<le> x2" by simp
  with x1 have x2: "0 < x2" by linarith
  from round64_error [of x1] lo hi x1 x12
  obtain r1 where r1: "round64 x1 = Finite r1" "\<bar>r1 - x1\<bar> \<le> x1 * u"
    by (auto simp: u_def)
  from round64_error [of x2] lo hi x2 x12
  obtain r2 where r2: "round64 x2 = Finite r2" "\<bar>r2 - x2\<bar> \<le> x2 * u"
    by (auto simp: u_def)
  have "x1 * (1 + u) = x1 + x1 * u" "x2 * (1 - u) = x2 - x2 * u"
    by (simp_all add: algebra_simps)
  with r1(2) r2(2) have a: "r1 \<le> x1 * (1 + u)" and b: "x2 * (1 - u) \<le> r2"
    by linarith+
  have "x1 * (1 + 4 * u) * (1 - u) \<le> x2 * (1 - u)"
    using gap u by (intro mult_right_mono) simp_all
  moreover have "x1 * (1 + 4 * u) * (1 - u) - x1 * (1 + u) = (x1 * (2 * u)) * (1 - 2 * u)"
    by (simp add: algebra_simps)
  moreover have "0 < (x1 * (2 * u)) * (1 - 2 * u)"
    using x1 u by (intro mult_pos_pos) simp_all
  ultimately have "x1 * (1 + u) < x2 * (1 - u)" by linarith
  with a b have "r1 < r2" by linarith
  with r1(1) r2(1) show ?thesis by blast
qed

lemma round64_of_int:
  assumes "\<bar>k\<bar> < 2 ^ 53"
  shows "round64 (of_int k) = Finite (of_int k)"
proof (cases "k = 0")
  case True
  then show ?thesis by (simp add: round64_def)
next
  case False
  define x where "x = rat_of_int k"
  have ax: "\<bar>x\<bar> = of_int \<bar>k\<bar>" by (simp add: x_def)
  from False have "1 \<le> \<bar>k\<bar>" by simp
  then have one: "1 \<le> \<bar>x\<bar>" unfolding ax by simp
  then have pos: "0 < \<bar>x\<bar>" by linarith
  define e where "e = flog2 \<bar>x\<bar>"
  from flog2_bounds [OF pos] have eb: "pow2 e \<le> \<bar>x\<bar>" "\<bar>x\<bar> < pow2 (e + 1)"
    by (simp_all add: e_def)
  have e0: "0 \<le> e"
  proof (rule ccontr)
    assume "\<not> 0 \<le> e"
    then have "pow2 (e + 1) \<le> pow2 0" by (intro pow2_mono) simp
    with eb(2) one show False by (simp add: pow2_def)
  qed
  have "rat_of_int \<bar>k\<bar> < of_int (2 ^ 53)"
    using assms by (simp only: of_int_less_iff)
  then have lt: "\<bar>x\<bar> < pow2 53" by (simp add: ax pow2_def)
  have e52: "e \<le> 52"
  proof (rule ccontr)
    assume "\<not> e \<le> 52"
    then have "pow2 53 \<le> pow2 e" by (intro pow2_mono) simp
    with eb(1) lt show False by linarith
  qed
  define j where "j = nat (52 - e)"
  have ulp: "pow2 (e - 52) = 1 / 2 ^ j"
    using e52 by (simp add: pow2_def power_int_def j_def field_simps)
  have scaled: "x / pow2 (e - 52) = of_int (k * 2 ^ j)"
    by (simp add: ulp x_def)
  have n: "round_half_even (x / pow2 (e - 52)) = k * 2 ^ j"
    unfolding scaled by (rule round_half_even_of_int)
  have unscaled: "of_int (k * 2 ^ j) * pow2 (e - 52) = x"
    by (simp add: ulp x_def)
  have "\<bar>x\<bar> < pow2 1024"
    using lt pow2_strict_mono [of 53 1024] by simp
  then have "\<not> pow2 1024 \<le> x" "\<not> x \<le> - pow2 1024" by linarith+
  moreover have "x \<noteq> 0" using pos by simp
  moreover have "max (flog2 \<bar>x\<bar>) (- 1022) = e" using e0 by (simp add: e_def)
  ultimately have "round64 x = Finite x"
    using round64_at [of x e "k * 2 ^ j"] n unscaled by simp
  then show ?thesis by (simp add: x_def)
qed

subsection \<open>The floats of the examples\<close>

text \<open>
  The values of the literals and of the operations used below, each obtained from the
  exponent and the rounded significand of the exact result.
\<close>

lemma literal_18_5: "literal 18.5 = 37 / 2"
  using round64_normal [of 4 "18.5" 5207287069147136] by (simp add: literal_def pow2_def)

lemma literal_24_9: "literal 24.9 = 3504363460047667 / 140737488355328"
  using round64_normal [of 4 "24.9" 7008726920095334] by (simp add: literal_def pow2_def)

lemma literal_0_453592: "literal 0.453592 = 1021398381089119 / 2251799813685248"
  using round64_normal [of "- 2" "0.453592" 8171187048712952] by (simp add: literal_def pow2_def)

lemma literal_0_0254: "literal 0.0254 = 3660525777126739 / 144115188075855872"
  using round64_normal [of "- 6" "0.0254" 7321051554253478] by (simp add: literal_def pow2_def)


lemma literal_1_7: "literal 1.7 = 7656119366529843 / 4503599627370496"
  using round64_normal [of 0 "1.7" 7656119366529843] by (simp add: literal_def pow2_def)

lemma literal_53_465: "literal 53.465 = 1881132453729403 / 35184372088832"
  using round64_normal [of 5 "53.465" 7524529814917612] by (simp add: literal_def pow2_def)

lemma literal_71_961: "literal 71.961 = 5063805199768879 / 70368744177664"
  using round64_normal [of 6 "71.961" 5063805199768879] by (simp add: literal_def pow2_def)

lemma literal_53_464999999999996: "literal 53.464999999999996 = 7524529814917611 / 140737488355328"
  using round64_normal [of 5 "53.464999999999996" 7524529814917611] by (simp add: literal_def pow2_def)

lemma literal_71_96099999999998: "literal 71.96099999999998 = 2531902599884439 / 35184372088832"
  using round64_normal [of 6 "71.96099999999998" 5063805199768878] by (simp add: literal_def pow2_def)




lemma square_1_7: "round64 (7656119366529843 / 4503599627370496 * (7656119366529843 / 4503599627370496)) = Finite (3253850730775183 / 1125899906842624)"
  using round64_normal [of 1 "7656119366529843 / 4503599627370496 * (7656119366529843 / 4503599627370496)" 6507701461550366] by (simp add: pow2_def)

lemma product_18_5: "round64 (37 / 2 * (3253850730775183 / 1125899906842624)) = Finite (7524529814917611 / 140737488355328)"
  using round64_normal [of 5 "37 / 2 * (3253850730775183 / 1125899906842624)" 7524529814917611] by (simp add: pow2_def)

lemma product_24_9: "round64 (3504363460047667 / 140737488355328 * (3253850730775183 / 1125899906842624)) = Finite (2531902599884439 / 35184372088832)"
  using round64_normal [of 6 "3504363460047667 / 140737488355328 * (3253850730775183 / 1125899906842624)" 5063805199768878] by (simp add: pow2_def)

lemma kg_9: "round64 (9 * (1021398381089119 / 2251799813685248)) = Finite (1149073178725259 / 281474976710656)"
  using round64_normal [of 2 "9 * (1021398381089119 / 2251799813685248)" 4596292714901036] by (simp add: pow2_def)

lemma kg_9_next: "round64 (5066549580791809 / 562949953421312 * (1021398381089119 / 2251799813685248)) = Finite (1149073178725259 / 281474976710656)"
  using round64_normal [of 2 "5066549580791809 / 562949953421312 * (1021398381089119 / 2251799813685248)" 4596292714901036] by (simp add: pow2_def)

lemma kg_44_a: "round64 (3096224743817221 / 70368744177664 * (1021398381089119 / 2251799813685248)) = Finite (1404422773997541 / 70368744177664)"
  using round64_normal [of 4 "3096224743817221 / 70368744177664 * (1021398381089119 / 2251799813685248)" 5617691095990164] by (simp add: pow2_def)

lemma kg_44_b: "round64 (6192449487634443 / 140737488355328 * (1021398381089119 / 2251799813685248)) = Finite (1404422773997541 / 70368744177664)"
  using round64_normal [of 4 "6192449487634443 / 140737488355328 * (1021398381089119 / 2251799813685248)" 5617691095990164] by (simp add: pow2_def)

lemma metres_72: "round64 (72 * (3660525777126739 / 144115188075855872)) = Finite (8236182998535163 / 4503599627370496)"
  using round64_normal [of 0 "72 * (3660525777126739 / 144115188075855872)" 8236182998535163] by (simp add: pow2_def)

lemma literal_9_next: "literal 9.000000000000002 = 5066549580791809 / 562949953421312"
  using round64_normal [of 3 "9.000000000000002" 5066549580791809] by (simp add: literal_def pow2_def)

lemma literal_44_a: "literal 44.00000000000007 = 3096224743817221 / 70368744177664"
  using round64_normal [of 5 "44.00000000000007" 6192449487634442] by (simp add: literal_def pow2_def)

lemma literal_44_b: "literal 44.00000000000008 = 6192449487634443 / 140737488355328"
  using round64_normal [of 5 "44.00000000000008" 6192449487634443] by (simp add: literal_def pow2_def)




lemma square_huge: "round64 (pow2 700 * pow2 700) = PosInf"
  using round64_overflow [of 1400 "pow2 700 * pow2 700" "2 ^ 52"] by (simp add: pow2_def)

subsection \<open>BMI value\<close>


subsection \<open>Category thresholds\<close>

text \<open>
  C2. \<open>classify_bmi\<close> returns Underweight below 18.5, Normal weight from 18.5 up to but
  not including 25, Overweight from 25 up to but not including 30, and Obese from 30 on;
  the thresholds 18.5, 25 and 30 belong to the upper category. The statement holds for
  every real, so for every positive one.
\<close>

theorem classify_bmi_thresholds:
  "(bmi < 18.5 \<longrightarrow> fst (classify_bmi bmi) = ''Underweight'') \<and>
   (18.5 \<le> bmi \<and> bmi < 25 \<longrightarrow> fst (classify_bmi bmi) = ''Normal weight'') \<and>
   (25 \<le> bmi \<and> bmi < 30 \<longrightarrow> fst (classify_bmi bmi) = ''Overweight'') \<and>
   (30 \<le> bmi \<longrightarrow> fst (classify_bmi bmi) = ''Obese'') \<and>
   fst (classify_bmi 18.5) = ''Normal weight'' \<and>
   fst (classify_bmi 25) = ''Overweight'' \<and>
   fst (classify_bmi 30) = ''Obese''"
  by (simp add: classify_bmi_def)

theorem classify_bmi_thresholds_witness:
  "(17::real) < 18.5 \<and> fst (classify_bmi 17) = ''Underweight'' \<and>
   (18.5::real) \<le> 22 \<and> (22::real) < 25 \<and> fst (classify_bmi 22) = ''Normal weight'' \<and>
   (25::real) \<le> 27 \<and> (27::real) < 30 \<and> fst (classify_bmi 27) = ''Overweight'' \<and>
   (30::real) \<le> 31 \<and> fst (classify_bmi 31) = ''Obese''"
  using classify_bmi_thresholds [of 17] classify_bmi_thresholds [of 22]
    classify_bmi_thresholds [of 27] classify_bmi_thresholds [of 31]
  by simp

subsection \<open>Unit conversion\<close>

text \<open>
  C5, as claimed: under the Metric unit system the height conversion returns its height
  input unchanged. It does not: 170 (centimetres) becomes 1.7 (metres).
\<close>

theorem convert_metric_height_counterexample:
  "convert_height_to_meters 170 0 ''Metric'' = 1.7 \<and>
   convert_height_to_meters 170 0 ''Metric'' \<noteq> 170"
  by (simp add: convert_height_to_meters_def)

text \<open>
  C5, amended. Under the Metric unit system \<open>convert_weight_to_kg\<close> returns the weight
  unchanged, and \<open>convert_height_to_meters\<close> takes its first argument as centimetres and
  returns it divided by 100, whatever the second argument is.
\<close>

theorem convert_metric:
  "convert_height_to_meters height_cm inches ''Metric'' = height_cm / 100 \<and>
   convert_weight_to_kg weight ''Metric'' = weight"
  by (simp add: convert_height_to_meters_def convert_weight_to_kg_def)

text \<open>
  C6. Under the Imperial unit system the height in metres is the total of inches
  (twelve to the foot) times 0.0254 and the weight in kilograms is the weight times
  0.453592; 5 feet 8 inches are 1.7272 metres and 154 pounds are 69.853168 kilograms,
  in exact arithmetic.
\<close>

theorem convert_imperial:
  "convert_height_to_meters feet inches ''Imperial'' = (feet * 12 + inches) * 0.0254 \<and>
   convert_weight_to_kg weight ''Imperial'' = weight * 0.453592 \<and>
   convert_height_to_meters 5 8 ''Imperial'' = 1.7272 \<and>
   convert_weight_to_kg 154 ''Imperial'' = 69.853168"
  by (simp add: convert_height_to_meters_def convert_weight_to_kg_def)

subsection \<open>Ideal weight range\<close>

text \<open>
  C7, as claimed: for every height the result is the pair of 18.5 and 24.9 times the
  squared height, and for the height 1.7 it is (53.465, 71.961). At the float 1.7 the
  result is (53.464999999999996, 71.96099999999998), which is neither the pair of floats
  53.465 and 71.961 nor the pair of these numbers; and at the height \<open>pow2 700\<close> there
  is no result, the power raises \<^verbatim>\<open>OverflowError\<close>.
\<close>

theorem ideal_weight_range_counterexample:
  "calculate_ideal_weight_range (literal 1.7) =
     Inr (Finite (7524529814917611 / 140737488355328),
          Finite (2531902599884439 / 35184372088832)) \<and>
   (7524529814917611 / 140737488355328 :: rat) \<noteq> literal 53.465 \<and>
   (7524529814917611 / 140737488355328 :: rat) \<noteq> 53.465 \<and>
   (2531902599884439 / 35184372088832 :: rat) \<noteq> literal 71.961 \<and>
   (2531902599884439 / 35184372088832 :: rat) \<noteq> 71.961 \<and>
   calculate_ideal_weight_range (pow2 700) = Inl OverflowError"
proof -
  have v: "calculate_ideal_weight_range (literal 1.7) =
     Inr (Finite (7524529814917611 / 140737488355328),
          Finite (2531902599884439 / 35184372088832))"
    unfolding calculate_ideal_weight_range_def float_pow2_def float_mul_def literal_1_7
      literal_18_5 literal_24_9 square_1_7 pyfloat.case sum.case Let_def
      product_18_5 product_24_9
    by simp
  have o: "calculate_ideal_weight_range (pow2 700) = Inl OverflowError"
    unfolding calculate_ideal_weight_range_def float_pow2_def square_huge by simp
  have d: "(7524529814917611 / 140737488355328 :: rat) \<noteq> literal 53.465"
    "(7524529814917611 / 140737488355328 :: rat) \<noteq> 53.465"
    "(2531902599884439 / 35184372088832 :: rat) \<noteq> literal 71.961"
    "(2531902599884439 / 35184372088832 :: rat) \<noteq> 71.961"
    unfolding literal_53_465 literal_71_961 by simp_all
  from v o d show ?thesis by blast
qed

lemma float_pow2_normal:
  assumes "pow2 (- 1022) \<le> h * h" "h * h \<le> pow2 1023"
  shows "\<exists>h2. float_pow2 h = Inr h2 \<and> rel_err_le h2 (h * h) (pow2 (- 53))"
proof -
  from assms pow2_pos [of "- 1022"] have "\<bar>h * h\<bar> = h * h" by simp
  with round64_rel_err [of "h * h"] assms
  obtain r where "round64 (h * h) = Finite r" "rel_err_le r (h * h) (pow2 (- 53))"
    by auto
  then show ?thesis by (simp add: float_pow2_def)
qed

lemma float_mul_normal:
  assumes "pow2 (- 1022) \<le> \<bar>a * b\<bar>" "\<bar>a * b\<bar> \<le> pow2 1023"
  shows "\<exists>r. float_mul a b = Finite r \<and> rel_err_le r (a * b) (pow2 (- 53))"
  using round64_rel_err [OF assms] by (simp add: float_mul_def)

lemma u_small: "0 \<le> pow2 (- 53)" "pow2 (- 53) \<le> 1 / 2 ^ 53"
  by (simp_all add: u_values)

lemma two_roundings:
  "pow2 (- 53) + pow2 (- 53) + pow2 (- 53) * pow2 (- 53) \<le> pow2 (- 51)"
  by (simp add: u_values)

lemma three_roundings:
  "((pow2 (- 53) + pow2 (- 53) + pow2 (- 53) * pow2 (- 53)) + pow2 (- 53) +
    (pow2 (- 53) + pow2 (- 53) + pow2 (- 53) * pow2 (- 53)) * pow2 (- 53)) \<le> pow2 (- 51)"
  by (simp add: u_values)

lemma literal_24_9_rel_err: "rel_err_le (literal 24.9) 24.9 (pow2 (- 53))"
  unfolding literal_24_9 by (simp add: rel_err_le_def u_values)

lemma scaled_square_range:
  assumes x: "pow2 (- 1022) \<le> x" "x \<le> pow2 1000" and h2: "rel_err_le h2 x (pow2 (- 53))"
    and c: "1 + 1 / 2 ^ 20 \<le> c" "c \<le> 2 ^ 20"
  shows "pow2 (- 1022) \<le> \<bar>c * h2\<bar>" "\<bar>c * h2\<bar> \<le> pow2 1023"
proof -
  from x pow2_pos [of "- 1022"] have xpos: "0 < x" by linarith
  then have ax: "\<bar>x\<bar> = x" by simp
  have "(0::rat) < 1 + 1 / 2 ^ 20" by simp
  with c(1) have cpos: "0 < c" by linarith
  have lo: "x * (1 - pow2 (- 53)) \<le> \<bar>h2\<bar>"
    using rel_err_abs_ge [OF h2] by (simp add: ax)
  have hi: "\<bar>h2\<bar> \<le> x * (1 + pow2 (- 53))"
    using rel_err_abs_le [OF h2] by (simp add: ax)
  have "1 \<le> (1 + 1 / 2 ^ 20) * (1 - pow2 (- 53))"
    by (simp add: u_values)
  also have "\<dots> \<le> c * (1 - pow2 (- 53))"
    using c(1) by (intro mult_right_mono) (simp_all add: u_values)
  finally have "x * 1 \<le> x * (c * (1 - pow2 (- 53)))"
    using xpos by (intro mult_left_mono) simp_all
  also have "\<dots> = c * (x * (1 - pow2 (- 53)))" by simp
  also have "\<dots> \<le> c * \<bar>h2\<bar>"
    using lo cpos by (intro mult_left_mono) simp_all
  finally have "x \<le> \<bar>c * h2\<bar>" using cpos by (simp add: abs_mult)
  with x(1) show "pow2 (- 1022) \<le> \<bar>c * h2\<bar>" by linarith
  have "c * \<bar>h2\<bar> \<le> c * (x * (1 + pow2 (- 53)))"
    using hi cpos by (intro mult_left_mono) simp_all
  also have "\<dots> = (c * (1 + pow2 (- 53))) * x" by simp
  also have "\<dots> \<le> (c * (1 + pow2 (- 53))) * pow2 1000"
    using x(2) cpos u_small(1) by (intro mult_left_mono) simp_all
  also have "c * (1 + pow2 (- 53)) \<le> 2 ^ 20 * 2"
    using c(2) cpos by (intro mult_mono) (simp_all add: u_values)
  then have "(c * (1 + pow2 (- 53))) * pow2 1000 \<le> (2 ^ 20 * 2) * pow2 1000"
    using pow2_pos [of 1000] by (intro mult_right_mono) simp_all
  also have "(2 ^ 20 * 2) * pow2 1000 = pow2 21 * pow2 1000"
    by (simp add: pow2_def)
  also have "\<dots> = pow2 1021" by (simp flip: pow2_add)
  also have "\<dots> \<le> pow2 1023" by (intro pow2_mono) simp
  finally show "\<bar>c * h2\<bar> \<le> pow2 1023" using cpos by (simp add: abs_mult)
qed

lemma calculate_ideal_weight_range_Inr:
  "float_pow2 h = Inr h2 \<Longrightarrow>
     calculate_ideal_weight_range h =
       Inr (float_mul (literal 18.5) h2, float_mul (literal 24.9) h2)"
  by (simp add: calculate_ideal_weight_range_def)

text \<open>
  C7, amended. For every height whose square lies in the normal range of the floats, from
  \<open>pow2 (- 1022)\<close> to \<open>pow2 1000\<close>, \<open>calculate_ideal_weight_range\<close> returns a pair of
  finite floats that are 18.5 and 24.9 times the squared height to within the relative
  error \<open>pow2 (- 51)\<close> of floating rounding. For the height 1.7 the pair is
  (53.464999999999996, 71.96099999999998), which is (53.465, 71.961) to within that
  error.
\<close>

theorem ideal_weight_range_amended:
  "(pow2 (- 1022) \<le> h * h \<and> h * h \<le> pow2 1000 \<longrightarrow>
      (\<exists>lo hi. calculate_ideal_weight_range h = Inr (Finite lo, Finite hi) \<and>
         rel_err_le lo (18.5 * (h * h)) (pow2 (- 51)) \<and>
         rel_err_le hi (24.9 * (h * h)) (pow2 (- 51)))) \<and>
   calculate_ideal_weight_range (literal 1.7) =
     Inr (Finite (literal 53.464999999999996), Finite (literal 71.96099999999998)) \<and>
   rel_err_le (literal 53.464999999999996) 53.465 (pow2 (- 51)) \<and>
   rel_err_le (literal 71.96099999999998) 71.961 (pow2 (- 51))"
proof -
  have general: "\<exists>lo hi. calculate_ideal_weight_range h = Inr (Finite lo, Finite hi) \<and>
         rel_err_le lo (18.5 * (h * h)) (pow2 (- 51)) \<and>
         rel_err_le hi (24.9 * (h * h)) (pow2 (- 51))"
    if x: "pow2 (- 1022) \<le> h * h" "h * h \<le> pow2 1000"
  proof -
    have "pow2 1000 \<le> pow2 1023" by (intro pow2_mono) simp
    with x(2) have "h * h \<le> pow2 1023" by linarith
    from float_pow2_normal [OF x(1) this]
    obtain h2 where h2: "float_pow2 h = Inr h2" "rel_err_le h2 (h * h) (pow2 (- 53))"
      by blast
    define v where "v = literal 24.9"
    have v: "1 + 1 / 2 ^ 20 \<le> v" "v \<le> 2 ^ 20"
      unfolding v_def literal_24_9 by simp_all
    have c: "1 + 1 / 2 ^ 20 \<le> (37 / 2 :: rat)" "(37 / 2 :: rat) \<le> 2 ^ 20"
      by simp_all
    from float_mul_normal [OF scaled_square_range [OF x h2(2) c]]
    obtain lo where lo: "float_mul (37 / 2) h2 = Finite lo"
      "rel_err_le lo (37 / 2 * h2) (pow2 (- 53))"
      by blast
    from float_mul_normal [OF scaled_square_range [OF x h2(2) v]]
    obtain hi where hi: "float_mul v h2 = Finite hi" "rel_err_le hi (v * h2) (pow2 (- 53))"
      by blast
    have "rel_err_le (37 / 2 * h2) (37 / 2 * (h * h)) (pow2 (- 53))"
      using h2(2) by (rule rel_err_mult_left)
    from rel_err_trans [OF lo(2) this u_small(1)]
    have "rel_err_le lo (37 / 2 * (h * h)) (pow2 (- 51))"
      using two_roundings by (rule rel_err_weaken)
    then have lo_err: "rel_err_le lo (18.5 * (h * h)) (pow2 (- 51))"
      by simp
    have "rel_err_le (v * h2) (v * (h * h)) (pow2 (- 53))"
      using h2(2) by (rule rel_err_mult_left)
    moreover have "rel_err_le (v * (h * h)) (24.9 * (h * h)) (pow2 (- 53))"
      unfolding v_def using literal_24_9_rel_err by (rule rel_err_mult_right)
    ultimately have "rel_err_le (v * h2) (24.9 * (h * h))
        (pow2 (- 53) + pow2 (- 53) + pow2 (- 53) * pow2 (- 53))"
      using u_small(1) by (rule rel_err_trans)
    from rel_err_trans [OF hi(2) this u_small(1)]
    have hi_err: "rel_err_le hi (24.9 * (h * h)) (pow2 (- 51))"
      using three_roundings by (rule rel_err_weaken)
    note calculate_ideal_weight_range_Inr [OF h2(1), unfolded literal_18_5, folded v_def]
    then have "calculate_ideal_weight_range h = Inr (Finite lo, Finite hi)"
      by (simp only: lo(1) hi(1))
    with lo_err hi_err show ?thesis by blast
  qed
  have v: "calculate_ideal_weight_range (literal 1.7) =
     Inr (Finite (literal 53.464999999999996), Finite (literal 71.96099999999998))"
    unfolding calculate_ideal_weight_range_def float_pow2_def float_mul_def literal_1_7
      literal_18_5 literal_24_9 square_1_7 pyfloat.case sum.case Let_def
      product_18_5 product_24_9 literal_53_464999999999996 literal_71_96099999999998
    by simp
  have e: "rel_err_le (literal 53.464999999999996) 53.465 (pow2 (- 51))"
    "rel_err_le (literal 71.96099999999998) 71.961 (pow2 (- 51))"
    unfolding literal_53_464999999999996 literal_71_96099999999998
    by (simp_all add: rel_err_le_def u_values)
  from general v e show ?thesis by blast
qed

theorem ideal_weight_range_amended_witness:
  "pow2 (- 1022) \<le> 2 * 2 \<and> 2 * 2 \<le> pow2 1000 \<and>
   (\<exists>lo hi. calculate_ideal_weight_range 2 = Inr (Finite lo, Finite hi) \<and>
      rel_err_le lo (18.5 * (2 * 2)) (pow2 (- 51)) \<and>
      rel_err_le hi (24.9 * (2 * 2)) (pow2 (- 51)))"
proof -
  have "pow2 (- 1022) \<le> pow2 2" "pow2 2 \<le> pow2 1000"
    by (intro pow2_mono, simp)+
  then have h: "pow2 (- 1022) \<le> 2 * 2" "2 * 2 \<le> pow2 1000"
    by (simp_all add: pow2_def)
  with ideal_weight_range_amended [of 2] show ?thesis by blast
qed

subsection \<open>Injectivity of the Imperial conversions\<close>

text \<open>
  C8, as claimed: the Imperial conversions map distinct weights to distinct kilogram
  values and distinct pairs of feet and inches to distinct metre values. They do not:
  the floats 9 and 9.000000000000002 give the same kilograms, as do the floats
  44.00000000000007 and 44.00000000000008 within the range of the form, because the
  product is rounded; and 5 feet 12 inches and 6 feet 0 inches are the same 72 inches.
\<close>

theorem conversions_collide_counterexample:
  "literal 9.000000000000002 \<noteq> 9 \<and>
   convert_weight_to_kg_float 9 ''Imperial'' =
     convert_weight_to_kg_float (literal 9.000000000000002) ''Imperial'' \<and>
   literal 44.00000000000007 \<noteq> literal 44.00000000000008 \<and>
   convert_weight_to_kg_float (literal 44.00000000000007) ''Imperial'' =
     convert_weight_to_kg_float (literal 44.00000000000008) ''Imperial'' \<and>
   ((5::int), (12::int)) \<noteq> (6, 0) \<and>
   convert_height_to_meters_float 5 12 ''Imperial'' =
     convert_height_to_meters_float 6 0 ''Imperial''"
proof -
  have a: "literal 9.000000000000002 \<noteq> 9"
    "literal 44.00000000000007 \<noteq> literal 44.00000000000008"
    unfolding literal_9_next literal_44_a literal_44_b by simp_all
  have b: "convert_weight_to_kg_float 9 ''Imperial'' =
     convert_weight_to_kg_float (literal 9.000000000000002) ''Imperial''"
    unfolding convert_weight_to_kg_float_def float_mul_def literal_9_next literal_0_453592
      kg_9 kg_9_next
    by simp
  have c: "convert_weight_to_kg_float (literal 44.00000000000007) ''Imperial'' =
     convert_weight_to_kg_float (literal 44.00000000000008) ''Imperial''"
    unfolding convert_weight_to_kg_float_def float_mul_def literal_44_a literal_44_b
      literal_0_453592 kg_44_a kg_44_b
    by simp
  have d: "convert_height_to_meters_float 5 12 ''Imperial'' =
     convert_height_to_meters_float 6 0 ''Imperial''"
    by (simp add: convert_height_to_meters_float_def)
  from a b c d show ?thesis by simp
qed

lemma kg_factor_bounds: "pow2 (- 2) \<le> literal 0.453592" "literal 0.453592 \<le> 1"
  unfolding literal_0_453592 by (simp_all add: pow2_def)

lemma inch_factor_bounds: "pow2 (- 6) \<le> literal 0.0254" "literal 0.0254 \<le> pow2 (- 5)"
  unfolding literal_0_0254 by (simp_all add: pow2_def)

lemma weight_separated:
  assumes "pow2 (- 1000) \<le> w1" "w1 * (1 + pow2 (- 51)) \<le> w2" "w2 \<le> pow2 1000"
  shows "convert_weight_to_kg_float w1 ''Imperial'' \<noteq>
         convert_weight_to_kg_float w2 ''Imperial''"
proof -
  define c where "c = literal 0.453592"
  have c: "pow2 (- 2) \<le> c" "c \<le> 1" "0 < c"
    using kg_factor_bounds pow2_pos [of "- 2"] by (simp_all add: c_def)
  from assms(1) pow2_pos [of "- 1000"] have w1: "0 < w1" by linarith
  have "w1 * 1 \<le> w1 * (1 + pow2 (- 51))"
    using w1 pow2_pos [of "- 51"] by (intro mult_left_mono) simp_all
  with assms(2) w1 have w2: "0 < w2" by linarith
  have "pow2 (- 1022) \<le> pow2 (- 1002)" by (intro pow2_mono) simp
  also have "\<dots> = pow2 (- 1000) * pow2 (- 2)" by (simp flip: pow2_add)
  also have "\<dots> \<le> w1 * c"
    using assms(1) c pow2_pos [of "- 1000"] pow2_pos [of "- 2"]
    by (intro mult_mono) simp_all
  finally have lo: "pow2 (- 1022) \<le> w1 * c" .
  have "w2 * c \<le> pow2 1000 * 1"
    using assms(3) c w2 by (intro mult_mono) simp_all
  also have "\<dots> \<le> pow2 1023" using pow2_mono [of 1000 1023] by simp
  finally have hi: "w2 * c \<le> pow2 1023" .
  have "(w1 * (1 + pow2 (- 51))) * c \<le> w2 * c"
    using assms(2) c by (intro mult_right_mono) simp_all
  then have gap: "(w1 * c) * (1 + pow2 (- 51)) \<le> w2 * c"
    by (simp add: mult.assoc mult.commute mult.left_commute)
  from round64_separated [OF lo gap hi]
  show ?thesis
    by (auto simp: convert_weight_to_kg_float_def float_mul_def c_def)
qed

lemma int_to_float_exact: "\<bar>k\<bar> < 2 ^ 53 \<Longrightarrow> int_to_float k = Inr (of_int k)"
  by (simp add: int_to_float_def round64_of_int)

lemma height_separated:
  assumes "0 \<le> f1 * 12 + i1" "f1 * 12 + i1 < f2 * 12 + i2" "f2 * 12 + i2 \<le> 2 ^ 51"
  shows "convert_height_to_meters_float f1 i1 ''Imperial'' \<noteq>
         convert_height_to_meters_float f2 i2 ''Imperial''"
proof -
  define t1 where "t1 = f1 * 12 + i1"
  define t2 where "t2 = f2 * 12 + i2"
  define c where "c = literal 0.0254"
  have c: "pow2 (- 6) \<le> c" "c \<le> pow2 (- 5)" "0 < c"
    using inch_factor_bounds pow2_pos [of "- 6"] by (simp_all add: c_def)
  have t: "0 \<le> t1" "t1 < t2" "t2 \<le> 2 ^ 51"
    using assms by (simp_all add: t1_def t2_def)
  then have small: "\<bar>t1\<bar> < 2 ^ 53" "\<bar>t2\<bar> < 2 ^ 53" by simp_all
  have conv: "convert_height_to_meters_float f1 i1 ''Imperial'' = Inr (round64 (of_int t1 * c))"
    "convert_height_to_meters_float f2 i2 ''Imperial'' = Inr (round64 (of_int t2 * c))"
    using small
    by (simp_all add: convert_height_to_meters_float_def int_to_float_exact float_mul_def
        t1_def t2_def c_def)
  have t2r: "rat_of_int t2 \<le> 2 ^ 51"
  proof -
    from t(3) have "rat_of_int t2 \<le> of_int (2 ^ 51)" by (simp only: of_int_le_iff)
    then show ?thesis by simp
  qed
  have "of_int t2 * c \<le> 2 ^ 51 * pow2 (- 5)"
    using t2r c t by (intro mult_mono) simp_all
  also have "\<dots> = pow2 51 * pow2 (- 5)" by (simp add: pow2_def)
  also have "\<dots> = pow2 46" by (simp flip: pow2_add)
  also have "\<dots> \<le> pow2 1023" by (intro pow2_mono) simp
  finally have hi: "of_int t2 * c \<le> pow2 1023" .
  have low: "pow2 (- 1022) \<le> of_int k * c" if "1 \<le> k" for k :: int
  proof -
    from that have "(1::rat) \<le> of_int k" by simp
    have "pow2 (- 1022) \<le> pow2 (- 6)" by (intro pow2_mono) simp
    also have "\<dots> \<le> c" by (rule c)
    also have "\<dots> = 1 * c" by simp
    also have "\<dots> \<le> of_int k * c"
      using \<open>1 \<le> of_int k\<close> c by (intro mult_right_mono) simp_all
    finally show ?thesis .
  qed
  show ?thesis
  proof (cases "t1 = 0")
    case True
    with t have "1 \<le> t2" by simp
    from low [OF this] have lo2: "pow2 (- 1022) \<le> \<bar>of_int t2 * c\<bar>" by simp
    from lo2 pow2_pos [of "- 1022"] have pos: "0 < \<bar>of_int t2 * c\<bar>" by linarith
    from hi low [OF \<open>1 \<le> t2\<close>] pow2_pos [of "- 1022"]
    have hi2: "\<bar>of_int t2 * c\<bar> \<le> pow2 1023" by simp
    from round64_error [OF lo2 hi2]
    obtain r where r: "round64 (of_int t2 * c) = Finite r"
      "\<bar>r - of_int t2 * c\<bar> \<le> \<bar>of_int t2 * c\<bar> * pow2 (- 53)"
      by blast
    have "\<bar>of_int t2 * c\<bar> * pow2 (- 53) < \<bar>of_int t2 * c\<bar> * 1"
      using pos by (intro mult_strict_left_mono) (simp_all add: u_values)
    with r(2) have "r \<noteq> 0" by auto
    with r(1) True show ?thesis
      by (simp add: conv round64_def)
  next
    case False
    with t have one: "1 \<le> t1" by simp
    from t have "t1 \<le> 2 ^ 51" by linarith
    then have "rat_of_int t1 \<le> of_int (2 ^ 51)"
      by (simp only: of_int_le_iff)
    then have "rat_of_int t1 * pow2 (- 51) \<le> 2 ^ 51 * pow2 (- 51)"
      using pow2_pos [of "- 51"] by (intro mult_right_mono) simp_all
    also have "\<dots> = 1" by (simp add: u_values)
    finally have "rat_of_int t1 * (1 + pow2 (- 51)) \<le> of_int t1 + 1"
      by (simp add: algebra_simps)
    also have "\<dots> = of_int (t1 + 1)" by simp
    also have "\<dots> \<le> of_int t2"
    proof -
      from t(2) have "t1 + 1 \<le> t2" by simp
      then show ?thesis by (simp only: of_int_le_iff)
    qed
    finally have "(rat_of_int t1 * (1 + pow2 (- 51))) * c \<le> of_int t2 * c"
      using c by (intro mult_right_mono) simp_all
    then have gap: "(of_int t1 * c) * (1 + pow2 (- 51)) \<le> of_int t2 * c"
      by (simp add: mult.assoc mult.commute mult.left_commute)
    from round64_separated [OF low [OF one] gap hi]
    show ?thesis by (auto simp: conv)
  qed
qed

text \<open>
  C8, amended. The weight conversion under Imperial maps two weights to distinct kilogram
  values when the larger exceeds the smaller by at least one part in \<open>2 ^ 51\<close> (both
  between \<open>pow2 (- 1000)\<close> and \<open>pow2 1000\<close>), so any two weights from 44 to 660 that
  differ by 0.01 or more. The height conversion under Imperial maps two pairs of whole
  feet and inches to distinct values when their totals of inches differ and lie from 0 to
  \<open>2 ^ 51\<close>, so any two distinct pairs with feet from 0 to 8 and inches from 0 to 11.
\<close>

theorem conversions_injective_amended:
  "(pow2 (- 1000) \<le> w1 \<and> w1 * (1 + pow2 (- 51)) \<le> w2 \<and> w2 \<le> pow2 1000 \<longrightarrow>
      convert_weight_to_kg_float w1 ''Imperial'' \<noteq>
      convert_weight_to_kg_float w2 ''Imperial'') \<and>
   (44 \<le> w1 \<and> w1 + 1 / 100 \<le> w2 \<and> w2 \<le> 660 \<longrightarrow>
      convert_weight_to_kg_float w1 ''Imperial'' \<noteq>
      convert_weight_to_kg_float w2 ''Imperial'') \<and>
   (0 \<le> f1 * 12 + i1 \<and> f1 * 12 + i1 < f2 * 12 + i2 \<and> f2 * 12 + i2 \<le> 2 ^ 51 \<longrightarrow>
      convert_height_to_meters_float f1 i1 ''Imperial'' \<noteq>
      convert_height_to_meters_float f2 i2 ''Imperial'') \<and>
   (0 \<le> f1 \<and> f1 \<le> 8 \<and> 0 \<le> f2 \<and> f2 \<le> 8 \<and>
    0 \<le> i1 \<and> i1 \<le> 11 \<and> 0 \<le> i2 \<and> i2 \<le> 11 \<and> (f1, i1) \<noteq> (f2, i2) \<longrightarrow>
      convert_height_to_meters_float f1 i1 ''Imperial'' \<noteq>
      convert_height_to_meters_float f2 i2 ''Imperial'')"
proof -
  have form_weight: "convert_weight_to_kg_float w1 ''Imperial'' \<noteq>
      convert_weight_to_kg_float w2 ''Imperial''"
    if w: "44 \<le> w1" "w1 + 1 / 100 \<le> w2" "w2 \<le> 660"
  proof -
    have "pow2 (- 1000) \<le> pow2 0" "pow2 10 \<le> pow2 1000"
      by (intro pow2_mono, simp)+
    then have r: "pow2 (- 1000) \<le> 1" "1024 \<le> pow2 1000"
      by (simp_all add: pow2_def)
    from w have "w1 \<le> 660" by linarith
    then have "w1 * pow2 (- 51) \<le> 660 * pow2 (- 51)"
      using pow2_pos [of "- 51"] by (intro mult_right_mono) simp_all
    also have "\<dots> \<le> 1 / 100" by (simp add: u_values)
    finally have "w1 * (1 + pow2 (- 51)) \<le> w1 + 1 / 100"
      by (simp add: algebra_simps)
    with w r show ?thesis
      by (intro weight_separated) linarith+
  qed
  have form_height: "convert_height_to_meters_float f1 i1 ''Imperial'' \<noteq>
      convert_height_to_meters_float f2 i2 ''Imperial''"
    if b: "0 \<le> f1" "f1 \<le> 8" "0 \<le> f2" "f2 \<le> 8" "0 \<le> i1" "i1 \<le> 11" "0 \<le> i2" "i2 \<le> 11"
      and ne: "(f1, i1) \<noteq> (f2, i2)"
  proof -
    have big: "(107::int) \<le> 2 ^ 51" by simp
    have "f1 * 12 + i1 \<noteq> f2 * 12 + i2"
    proof
      assume eq: "f1 * 12 + i1 = f2 * 12 + i2"
      with b(5-8) have "f1 = f2" by linarith
      with eq ne show False by simp
    qed
    then have "f1 * 12 + i1 < f2 * 12 + i2 \<or> f2 * 12 + i2 < f1 * 12 + i1"
      by linarith
    then show ?thesis
    proof
      assume lt: "f1 * 12 + i1 < f2 * 12 + i2"
      from b big have "0 \<le> f1 * 12 + i1" "f2 * 12 + i2 \<le> 2 ^ 51" by linarith+
      with lt show ?thesis by (intro height_separated)
    next
      assume lt: "f2 * 12 + i2 < f1 * 12 + i1"
      from b big have "0 \<le> f2 * 12 + i2" "f1 * 12 + i1 \<le> 2 ^ 51" by linarith+
      with lt have "convert_height_to_meters_float f2 i2 ''Imperial'' \<noteq>
        convert_height_to_meters_float f1 i1 ''Imperial''"
        by (intro height_separated)
      then show ?thesis by simp
    qed
  qed
  from weight_separated [of w1 w2] form_weight height_separated [of f1 i1 f2 i2] form_height
  show ?thesis by blast
qed

theorem conversions_injective_amended_witness:
  "pow2 (- 1000) \<le> 154 \<and> 154 * (1 + pow2 (- 51)) \<le> 155 \<and> 155 \<le> pow2 1000 \<and>
   (44::rat) \<le> 154 \<and> (154::rat) + 1 / 100 \<le> 155 \<and> (155::rat) \<le> 660 \<and>
   convert_weight_to_kg_float 154 ''Imperial'' \<noteq> convert_weight_to_kg_float 155 ''Imperial'' \<and>
   (0::int) \<le> 5 * 12 + 11 \<and> (5::int) * 12 + 11 < 6 * 12 + 0 \<and> (6::int) * 12 + 0 \<le> 2 ^ 51 \<and>
   (0::int) \<le> 5 \<and> (5::int) \<le> 8 \<and> (0::int) \<le> 6 \<and> (6::int) \<le> 8 \<and>
   (0::int) \<le> 11 \<and> (11::int) \<le> 11 \<and> (0::int) \<le> 0 \<and> (0::int) \<le> 11 \<and>
   ((5::int), (11::int)) \<noteq> (6, 0) \<and>
   convert_height_to_meters_float 5 11 ''Imperial'' \<noteq> convert_height_to_meters_float 6 0 ''Imperial''"
proof -
  have "pow2 (- 1000) \<le> pow2 0" "pow2 10 \<le> pow2 1000"
    by (intro pow2_mono, simp)+
  then have r: "pow2 (- 1000) \<le> 154" "155 \<le> pow2 1000"
    by (simp_all add: pow2_def)
  have g: "154 * (1 + pow2 (- 51)) \<le> 155"
    by (simp add: u_values)
  from conversions_injective_amended [of 154 155 5 11 6 0] r g show ?thesis
    by simp
qed

subsection \<open>Recommendations\<close>

text \<open>
  Each block of \<open>get_health_recommendations\<close> appends to the list it is given, and what
  it appends is the entry of the specification's wording once an age of 0 is read as an
  absent age.
\<close>

lemmas msg_defs = older_underweight_msg_def older_normal_msg_def older_overweight_msg_def
  under18_msg_def female_normal_msg_def female_underweight_msg_def male_overweight_msg_def

lemma age_adjustments_append:
  "age_adjustments category age xs = xs @ age_entries category (zero_as_absent age)"
  by (cases age) (simp_all add: age_adjustments_def age_entries_def zero_as_absent_def)

lemma gender_adjustments_append:
  "gender_adjustments category gender xs = xs @ gender_entries category gender"
  by (simp add: gender_adjustments_def gender_entries_def)

lemma get_health_recommendations_append:
  "get_health_recommendations category age gender =
     base_entries category @ age_entries category (zero_as_absent age) @
     gender_entries category gender"
  by (simp add: get_health_recommendations_def base_entries_def
      age_adjustments_append gender_adjustments_append)

lemma base_entries_length:
  "category \<in> set [''Underweight'', ''Normal weight'', ''Overweight'', ''Obese''] \<Longrightarrow>
     length (base_entries category) = 4"
  by (auto simp: base_entries_def base_recommendations_def)

lemma base_entries_unknown:
  "category \<notin> set [''Underweight'', ''Normal weight'', ''Overweight'', ''Obese''] \<Longrightarrow>
     map_of base_recommendations category = None"
  by (simp add: base_recommendations_def)

lemma under18_not_base: "under18_msg \<notin> set (base_entries category)"
  by (simp add: base_entries_def base_recommendations_def under18_msg_def)

lemma under18_not_gender: "under18_msg \<notin> set (gender_entries category gender)"
  by (simp add: gender_entries_def msg_defs)

lemma notes_distinct: "older_note \<noteq> female_note" "minor_note \<noteq> female_note"
  "older_note \<noteq> minor_note"
  by (simp_all add: older_note_def female_note_def minor_note_def)

text \<open>
  C3, as claimed: one generic message is appended whenever the age is below 18. It is
  not at the age 0: the source tests \<^verbatim>\<open>if age:\<close> first, which is false for 0, and
  returns the four base entries only.
\<close>

theorem deriveRecommendations_age_zero_counterexample:
  "(0::int) < 18 \<and>
   get_health_recommendations ''Normal weight'' (Some 0) None \<noteq>
     deriveRecommendations ''Normal weight'' (Some 0) None \<and>
   get_health_recommendations ''Normal weight'' (Some 0) None = base_entries ''Normal weight''"
  by (simp add: get_health_recommendations_append deriveRecommendations_def
      zero_as_absent_def age_entries_def gender_entries_def)

text \<open>
  C3, amended. For every category, age and gender, \<open>get_health_recommendations\<close> returns
  the base entries of the category (four for each of the four categories), then the
  entry of the age branch (one message chosen by the category when the age is at least
  65, one generic message when the age is below 18 and not 0; an age of 0 counts as
  absent), then the entry of the gender branch (Female: one message for Normal weight or
  Underweight; Male: one message for Overweight or Obese). The two branches are
  independent and the age entry comes first. For Normal weight, age 70, Female, the list
  has length 6 and ends with the muscle-mass message followed by the iron and calcium
  message.
\<close>

theorem deriveRecommendations_amended:
  "get_health_recommendations category age gender =
     deriveRecommendations category (zero_as_absent age) gender \<and>
   (category \<in> set [''Underweight'', ''Normal weight'', ''Overweight'', ''Obese''] \<longrightarrow>
      length (base_entries category) = 4) \<and>
   get_health_recommendations ''Normal weight'' (Some 70) (Some ''Female'') =
     base_entries ''Normal weight'' @ [older_normal_msg, female_normal_msg] \<and>
   length (get_health_recommendations ''Normal weight'' (Some 70) (Some ''Female'')) = 6"
proof -
  have eq: "get_health_recommendations category age gender =
     deriveRecommendations category (zero_as_absent age) gender"
    by (simp add: get_health_recommendations_append deriveRecommendations_def)
  have len: "category \<in> set [''Underweight'', ''Normal weight'', ''Overweight'', ''Obese''] \<longrightarrow>
      length (base_entries category) = 4"
    using base_entries_length by blast
  have ex: "get_health_recommendations ''Normal weight'' (Some 70) (Some ''Female'') =
     base_entries ''Normal weight'' @ [older_normal_msg, female_normal_msg]"
    by (simp add: get_health_recommendations_append zero_as_absent_def age_entries_def
        gender_entries_def)
  have "length (base_entries ''Normal weight'') = 4"
    by (rule base_entries_length) simp
  with ex have six: "length (get_health_recommendations ''Normal weight'' (Some 70) (Some ''Female'')) = 6"
    by simp
  from eq len ex six show ?thesis by blast
qed

theorem deriveRecommendations_amended_witness:
  "''Obese'' \<in> set [''Underweight'', ''Normal weight'', ''Overweight'', ''Obese''] \<and>
   length (base_entries ''Obese'') = 4 \<and>
   get_health_recommendations ''Obese'' (Some 70) (Some ''Male'') =
     base_entries ''Obese'' @ [older_overweight_msg, male_overweight_msg]"
  using deriveRecommendations_amended [of "''Obese''" "Some 70" "Some ''Male''"]
  by (simp add: deriveRecommendations_def zero_as_absent_def age_entries_def gender_entries_def)

subsection \<open>Interpretation notes\<close>

text \<open>
  C4, as claimed: the notes are gated on the age being below 18 and on the age lying
  from 18 to 50 (30 when absent). At the age 0 with the gender Female the claim gives the
  under-18 note and no pregnancy note; the source gives the pregnancy note and no
  under-18 note, because \<^verbatim>\<open>age and age < 18\<close> is false and \<^verbatim>\<open>age or 30\<close> is 30.
\<close>

theorem interpretation_notes_age_zero_counterexample:
  "get_bmi_interpretation_note 22 (Some 0) (Some ''Female'') = [female_note] \<and>
   deriveInterpretationNotes 22 (Some 0) (Some ''Female'') = [minor_note] \<and>
   get_bmi_interpretation_note 22 (Some 0) (Some ''Female'') \<noteq>
     deriveInterpretationNotes 22 (Some 0) (Some ''Female'')"
  by (simp add: get_bmi_interpretation_note_def deriveInterpretationNotes_def
      notes_distinct [symmetric])

lemma interpretation_notes_eq:
  "get_bmi_interpretation_note bmi age gender =
     deriveInterpretationNotes bmi (zero_as_absent age) gender"
  by (cases age)
    (simp_all add: get_bmi_interpretation_note_def deriveInterpretationNotes_def
      zero_as_absent_def)

text \<open>
  C4, amended. \<open>get_bmi_interpretation_note\<close> returns at most three notes, gated on an
  age of at least 65, on an age below 18, and on the gender Female with an age from 18 to
  50, where an age of 0 counts as absent throughout and, for the Female check only, an
  absent age is taken as 30. So a BMI of 22 with no age and the gender Female gives the
  pregnancy note, and an absent age gives neither of the two age-gated notes.
\<close>

theorem interpretation_notes_amended:
  "get_bmi_interpretation_note bmi age gender =
     deriveInterpretationNotes bmi (zero_as_absent age) gender \<and>
   length (get_bmi_interpretation_note bmi age gender) \<le> 3 \<and>
   female_note \<in> set (get_bmi_interpretation_note 22 None (Some ''Female'')) \<and>
   older_note \<notin> set (get_bmi_interpretation_note bmi None gender) \<and>
   minor_note \<notin> set (get_bmi_interpretation_note bmi None gender)"
proof -
  have len: "length (get_bmi_interpretation_note bmi age gender) \<le> 3"
    by (simp add: get_bmi_interpretation_note_def Let_def)
  have f: "female_note \<in> set (get_bmi_interpretation_note 22 None (Some ''Female''))"
    by (simp add: get_bmi_interpretation_note_def)
  have o: "older_note \<notin> set (get_bmi_interpretation_note bmi None gender)"
    by (simp add: get_bmi_interpretation_note_def notes_distinct)
  have m: "minor_note \<notin> set (get_bmi_interpretation_note bmi None gender)"
    by (simp add: get_bmi_interpretation_note_def notes_distinct)
  from interpretation_notes_eq len f o m show ?thesis by blast
qed

subsection \<open>The age 0\<close>

text \<open>
  C9. An age of 0 is treated as an absent age: \<open>get_health_recommendations\<close> returns the
  same list for the age 0 as for no age, without the under-18 message, and
  \<open>get_bmi_interpretation_note\<close> at the age 0 with the gender Female takes the default
  age 30, gives the pregnancy note and gives no under-18 note.
\<close>

theorem age_zero_is_absent:
  "get_health_recommendations category (Some 0) gender =
     get_health_recommendations category None gender \<and>
   under18_msg \<notin> set (get_health_recommendations category (Some 0) gender) \<and>
   or_default (Some 0) 30 = 30 \<and>
   female_note \<in> set (get_bmi_interpretation_note bmi (Some 0) (Some ''Female'')) \<and>
   minor_note \<notin> set (get_bmi_interpretation_note bmi (Some 0) (Some ''Female''))"
proof -
  have eq: "get_health_recommendations category (Some 0) gender =
     get_health_recommendations category None gender"
    by (simp add: get_health_recommendations_append zero_as_absent_def)
  have u: "under18_msg \<notin> set (get_health_recommendations category (Some 0) gender)"
    by (simp add: get_health_recommendations_append zero_as_absent_def age_entries_def
        under18_not_base under18_not_gender)
  have d: "or_default (Some 0) 30 = 30" by simp
  have f: "female_note \<in> set (get_bmi_interpretation_note bmi (Some 0) (Some ''Female''))"
    by (simp add: get_bmi_interpretation_note_def)
  have m: "minor_note \<notin> set (get_bmi_interpretation_note bmi (Some 0) (Some ''Female''))"
    by (simp add: get_bmi_interpretation_note_def notes_distinct)
  from eq u d f m show ?thesis by blast
qed

subsection \<open>Unknown categories and the copy of the base list\<close>

text \<open>
  The dictionary literal puts its lists at the end of the store, one after the other, and
  the table maps each key to the address of its list. Looking a category up in the table
  and reading the store there gives the list that the table of values gives, or the
  fresh empty list.
\<close>

lemma upt_add_Cons: "[n ..< Suc (n + m)] = n # [Suc n ..< Suc (n + m)]"
  by (simp add: upt_conv_Cons)

lemma new_dict_eq:
  "new_dict h entries =
     (h @ map snd entries, zip (map fst entries) [length h ..< length h + length entries])"
proof (induction entries arbitrary: h)
  case Nil
  show ?case by simp
next
  case (Cons e entries)
  obtain k xs where e: "e = (k, xs)" by (cases e)
  from Cons [of "h @ [xs]"] e show ?case
    by (simp del: upt_Suc add: new_list_def upt_add_Cons)
qed

lemma found_list:
  "(h @ map snd entries @ [[]]) !
     (case map_of (zip (map fst entries) [length h ..< length h + length entries]) k of
        None \<Rightarrow> length h + length entries | Some a \<Rightarrow> a) =
   (case map_of entries k of None \<Rightarrow> [] | Some xs \<Rightarrow> xs)"
proof (induction entries arbitrary: h)
  case Nil
  show ?case by simp
next
  case (Cons e entries)
  obtain k' xs where e: "e = (k', xs)" by (cases e)
  show ?case
  proof (cases "k = k'")
    case True
    with e show ?thesis by (simp del: upt_Suc add: upt_add_Cons)
  next
    case False
    with Cons [of "h @ [xs]"] e show ?thesis
      by (simp del: upt_Suc add: upt_add_Cons cong: option.case_cong)
  qed
qed

lemma deref_new_dict:
  "deref (h @ map snd entries @ rest)
     (zip (map fst entries) [length h ..< length h + length entries]) = entries"
proof (induction entries arbitrary: h)
  case Nil
  show ?case by (simp add: deref_def)
next
  case (Cons e entries)
  obtain k xs where e: "e = (k, xs)" by (cases e)
  from Cons [of "h @ [xs]"] e show ?case
    by (simp del: upt_Suc add: deref_def upt_add_Cons)
qed

lemma table_addresses:
  "a \<in> snd ` set (zip ks [n ..< n + m]) \<Longrightarrow> n \<le> a \<and> a < n + m"
  by (auto dest: set_zip_rightD)

lemma length_base_recommendations: "length base_recommendations = 4"
  by (simp add: base_recommendations_def)

lemma get_health_recommendations_heap_eq:
  "get_health_recommendations_heap h category age gender =
     (h @ map snd base_recommendations @ [[], get_health_recommendations category age gender],
      zip (map fst base_recommendations) [length h ..< length h + 4],
      length h + 5)"
proof -
  let ?B = "map snd base_recommendations"
  let ?T = "zip (map fst base_recommendations)
              [length h ..< length h + length base_recommendations]"
  let ?found = "case map_of ?T category of None \<Rightarrow> length (h @ ?B) | Some a \<Rightarrow> a"
  let ?h2 = "(h @ ?B) @ [[]]"
  have found: "?h2 ! ?found =
      (case map_of base_recommendations category of None \<Rightarrow> [] | Some xs \<Rightarrow> xs)"
    using found_list [of h base_recommendations category]
    by (simp cong: option.case_cong)
  have "get_health_recommendations_heap h category age gender =
      (?h2 @ [gender_adjustments category gender (age_adjustments category age (?h2 ! ?found))],
       ?T, length ?h2)"
    unfolding get_health_recommendations_heap_def new_dict_eq
    by (simp only: new_list_def Let_def prod.case nth_append_length list_update_length)
  also have "\<dots> = (?h2 @ [get_health_recommendations category age gender], ?T, length ?h2)"
    by (simp only: found get_health_recommendations_def Let_def)
  finally show ?thesis
    by (simp add: length_base_recommendations)
qed

text \<open>
  C10. \<open>get_health_recommendations\<close> is a total function of its arguments, with no
  failing branch. For a category outside the four known ones the table has no entry, so
  the base list is empty, and the result holds only the under-18 message when that applies
  (an age below 18 that is not 0) and no entry of the gender branch. On the store, the
  list that is returned is a new object: its address is none of the table's, so the table
  still reads as the fixed base lists after the call, and also after the returned list is
  overwritten with any other content; the lists that were in the store before the call
  are untouched as well.
\<close>

theorem unknown_category_and_copy:
  "(category \<notin> set [''Underweight'', ''Normal weight'', ''Overweight'', ''Obese''] \<longrightarrow>
      map_of base_recommendations category = None \<and>
      get_health_recommendations category age gender =
        (case age of None \<Rightarrow> []
         | Some a \<Rightarrow> if a \<noteq> 0 \<and> a < 18 then [under18_msg] else [])) \<and>
   (case get_health_recommendations_heap h category age gender of
      (h', table, r) \<Rightarrow>
        h' ! r = get_health_recommendations category age gender \<and>
        r \<notin> snd ` set table \<and>
        deref h' table = base_recommendations \<and>
        deref (h'[r := ys]) table = base_recommendations \<and>
        take (length h) (h'[r := ys]) = h)"
proof -
  have unknown: "category \<notin> set [''Underweight'', ''Normal weight'', ''Overweight'', ''Obese''] \<longrightarrow>
      map_of base_recommendations category = None \<and>
      get_health_recommendations category age gender =
        (case age of None \<Rightarrow> []
         | Some a \<Rightarrow> if a \<noteq> 0 \<and> a < 18 then [under18_msg] else [])"
    by (cases age)
      (simp_all add: base_recommendations_def get_health_recommendations_def
        age_adjustments_def gender_adjustments_def)
  let ?B = "map snd base_recommendations"
  let ?table = "zip (map fst base_recommendations) [length h ..< length h + 4]"
  let ?r = "length h + 5"
  have len: "length (h @ ?B @ [[]]) = ?r"
    by (simp add: length_base_recommendations)
  have cell: "\<And>v. h @ ?B @ [[], v] = (h @ ?B @ [[]]) @ [v]"
    by simp
  have res: "\<And>v. (h @ ?B @ [[], v]) ! ?r = v"
    unfolding cell len [symmetric] by (rule nth_append_length)
  have mut: "\<And>v. (h @ ?B @ [[], v])[?r := ys] = h @ ?B @ [[], ys]"
    unfolding cell len [symmetric] by (rule list_update_length)
  have fresh: "?r \<notin> snd ` set ?table"
    using table_addresses [of ?r "map fst base_recommendations" "length h" 4] by auto
  have d: "\<And>v. deref (h @ ?B @ [[], v]) ?table = base_recommendations"
    using deref_new_dict [of h base_recommendations]
    by (simp add: length_base_recommendations)
  have t: "take (length h) (h @ ?B @ [[], ys]) = h"
    by simp
  have heap: "case get_health_recommendations_heap h category age gender of
      (h', table, r) \<Rightarrow>
        h' ! r = get_health_recommendations category age gender \<and>
        r \<notin> snd ` set table \<and>
        deref h' table = base_recommendations \<and>
        deref (h'[r := ys]) table = base_recommendations \<and>
        take (length h) (h'[r := ys]) = h"
    unfolding get_health_recommendations_heap_eq prod.case
    by (simp only: res mut d t fresh simp_thms)
  from unknown heap show ?thesis by blast
qed

theorem unknown_category_and_copy_witness:
  "''Athletic'' \<notin> set [''Underweight'', ''Normal weight'', ''Overweight'', ''Obese''] \<and>
   map_of base_recommendations ''Athletic'' = None \<and>
   get_health_recommendations ''Athletic'' (Some 12) (Some ''Female'') = [under18_msg]"
  using unknown_category_and_copy [of "''Athletic''" "Some 12" "Some ''Female''" "[]" "[]"]
  by simp

end
